theory Spec2Isabelle
  imports Main "HOL-Library.Word"
begin

unbundle bit_operations_syntax

section \<open>The bump allocator of \<open>sdk-templates/cpp/src/main.c\<close>\<close>

text \<open>
  The module is built for WebAssembly (wasm32), where \<open>size_t\<close> is an unsigned 32-bit
  integer: \<open>+\<close> wraps modulo \<open>2 ^ 32\<close> and \<open>>\<close> compares unsigned values.
\<close>

type_synonym size_t = "32 word"
type_synonym uint8_t = "8 word"

text \<open>
  The two statics of the allocator:
  \<^verbatim>\<open>static uint8_t heap[65536];\<close> and \<^verbatim>\<open>static size_t heap_ptr = 0;\<close>
\<close>

record allocator =
  heap :: "uint8_t list"
  heap_ptr :: size_t

text \<open>\<^verbatim>\<open>sizeof(heap)\<close>, a compile-time constant of type \<open>size_t\<close>.\<close>

definition sizeof_heap :: size_t where
  "sizeof_heap = 65536"

text \<open>Static storage is zero-initialised; \<open>heap_ptr\<close> starts at 0.\<close>

definition init_state :: allocator where
  "init_state = \<lparr>heap = replicate 65536 0, heap_ptr = 0\<rparr>"

text \<open>
  \<^verbatim>\<open>
  void* alloc(size_t size) {
      if (heap_ptr + size > sizeof(heap)) {
          return NULL;  // Out of memory
      }
      void* ptr = &heap[heap_ptr];
      // Align to 8 bytes
      heap_ptr += (size + 7) & ~7;
      return ptr;
  }
  \<close>
  A returned pointer \<^verbatim>\<open>&heap[i]\<close> is modelled by its offset \<open>i\<close> from the arena base,
  \<^verbatim>\<open>NULL\<close> by \<open>None\<close>. The \<open>int\<close> constant \<^verbatim>\<open>~7\<close> is \<open>-8\<close>; converted to \<open>size_t\<close>
  it is the word \<open>NOT 7\<close>.
\<close>

definition alloc :: "size_t \<Rightarrow> allocator \<Rightarrow> size_t option \<times> allocator" where
  "alloc sz s =
     (if heap_ptr s + sz > sizeof_heap then (None, s)
      else (Some (heap_ptr s), s\<lparr>heap_ptr := heap_ptr s + ((sz + 7) AND NOT 7)\<rparr>))"

text \<open>
  \<^verbatim>\<open>
  void dealloc(void* ptr, size_t size) {
      (void)ptr;
      (void)size;
  }
  \<close>
\<close>

definition dealloc :: "size_t option \<Rightarrow> size_t \<Rightarrow> allocator \<Rightarrow> allocator" where
  "dealloc ptr sz s = s"

text \<open>
  \<^verbatim>\<open>
  void reset_heap(void) {
      heap_ptr = 0;
  }
  \<close>
\<close>

definition reset_heap :: "allocator \<Rightarrow> allocator" where
  "reset_heap s = s\<lparr>heap_ptr := 0\<rparr>"

subsection \<open>Sequences of calls\<close>

text \<open>A call of one of the three exported allocator functions by the host.\<close>

datatype call = Alloc size_t | Dealloc "size_t option" size_t | Reset

fun step :: "call \<Rightarrow> allocator \<Rightarrow> allocator" where
  "step (Alloc sz) s = snd (alloc sz s)"
| "step (Dealloc ptr sz) s = dealloc ptr sz s"
| "step Reset s = reset_heap s"

fun run :: "call list \<Rightarrow> allocator \<Rightarrow> allocator" where
  "run [] s = s"
| "run (c # cs) s = run cs (step c s)"

text \<open>
  A sequence of \<open>alloc\<close> calls with the given sizes: the results in call order, and the
  final state.
\<close>

fun allocs :: "size_t list \<Rightarrow> allocator \<Rightarrow> size_t option list \<times> allocator" where
  "allocs [] s = ([], s)"
| "allocs (sz # szs) s =
     (case alloc sz s of (p, s') \<Rightarrow>
        (case allocs szs s' of (ps, s'') \<Rightarrow> (p # ps, s'')))"

text \<open>
  The bytes of a returned region, as offsets from the arena base: the region starts at the
  returned offset and has the requested (unpadded) length.
\<close>

definition region :: "size_t \<Rightarrow> size_t \<Rightarrow> nat set" where
  "region p sz = {unat p ..< unat p + unat sz}"

text \<open>
  The regions of a sequence of calls, from their results and requested sizes; a call that
  returned \<^verbatim>\<open>NULL\<close> handed out no bytes.
\<close>

definition regions :: "size_t option list \<Rightarrow> size_t list \<Rightarrow> nat set list" where
  "regions ps szs = map2 (\<lambda>p sz. case p of None \<Rightarrow> {} | Some q \<Rightarrow> region q sz) ps szs"

text \<open>No two regions of the list, at different positions, share a byte.\<close>

definition pairwise_disjoint :: "nat set list \<Rightarrow> bool" where
  "pairwise_disjoint rs = sorted_wrt (\<lambda>a b. a \<inter> b = {}) rs"

text \<open>Rounding a natural number up to the next multiple of 8.\<close>

definition align8 :: "nat \<Rightarrow> nat" where
  "align8 n = (n + 7) div 8 * 8"

text \<open>
  The cursor invariant: \<open>heap_ptr\<close> is at most \<^verbatim>\<open>sizeof(heap)\<close> and a multiple of 8.
\<close>

definition cursor_ok :: "allocator \<Rightarrow> bool" where
  "cursor_ok s \<longleftrightarrow> heap_ptr s \<le> sizeof_heap \<and> 8 dvd unat (heap_ptr s)"

section \<open>Basic facts\<close>

lemma heap_ptr_init: "heap_ptr init_state = 0"
  by (simp add: init_state_def)

lemma alloc_None_iff: "fst (alloc sz s) = None \<longleftrightarrow> heap_ptr s + sz > sizeof_heap"
  by (simp add: alloc_def)

lemma alloc_heap: "heap (snd (alloc sz s)) = heap s"
  by (simp add: alloc_def)

lemma alloc_Some: "fst (alloc sz s) = Some p \<Longrightarrow> p = heap_ptr s"
  by (simp add: alloc_def split: if_splits)

lemma allocs_Cons:
  "allocs (sz # szs) s =
     (fst (alloc sz s) # fst (allocs szs (snd (alloc sz s))), snd (allocs szs (snd (alloc sz s))))"
  by (simp add: split_beta)

lemma allocs_length: "length (fst (allocs szs s)) = length szs"
  by (induction szs arbitrary: s) (simp_all add: split_beta)

lemma pairwise_disjoint_nth:
  "pairwise_disjoint rs \<longleftrightarrow> (\<forall>i j. i < j \<longrightarrow> j < length rs \<longrightarrow> rs ! i \<inter> rs ! j = {})"
  by (simp add: pairwise_disjoint_def sorted_wrt_iff_nth_less)

lemma pairwise_disjoint_Cons:
  "pairwise_disjoint (r # rs) \<longleftrightarrow> (\<forall>r'\<in>set rs. r \<inter> r' = {}) \<and> pairwise_disjoint rs"
  by (simp add: pairwise_disjoint_def)

lemma regions_Cons:
  "regions (p # ps) (sz # szs) =
     (case p of None \<Rightarrow> {} | Some q \<Rightarrow> region q sz) # regions ps szs"
  by (simp add: regions_def)

section \<open>Unsigned 32-bit arithmetic\<close>

text \<open>
  What the word operations of \<open>alloc\<close> compute, read as natural numbers: clearing the
  three low bits rounds down to a multiple of 8, and \<open>+\<close> wraps at \<open>2 ^ 32\<close>.
\<close>

lemma and_not_mask_eq: "(x :: 'a::len word) AND NOT (mask n) = push_bit n (drop_bit n x)"
  by (rule bit_eqI) (auto simp: bit_simps)

lemma seven_mask: "(7 :: size_t) = mask 3"
  by (simp add: mask_eq_exp_minus_1)

lemma unat_and_not_7: "unat ((x :: size_t) AND NOT 7) = unat x div 8 * 8"
proof -
  have "unat (x AND NOT 7) = unat (push_bit 3 (drop_bit 3 x))"
    by (simp only: seven_mask and_not_mask_eq)
  also have "\<dots> = take_bit 32 (push_bit 3 (drop_bit 3 (unat x)))"
    by (simp add: unsigned_push_bit_eq unat_drop_bit_eq)
  also have "\<dots> = (unat x div 8 * 8) mod 2 ^ 32"
    by (simp add: take_bit_eq_mod push_bit_eq_mult drop_bit_eq_div)
  also have "\<dots> = unat x div 8 * 8"
  proof -
    have "unat x < 2 ^ 32" using unsigned_less [of x] by simp
    then have "unat x div 8 * 8 < 2 ^ 32" by simp
    then show ?thesis by simp
  qed
  finally show ?thesis .
qed

lemma unat_size_t_less: "unat (x :: size_t) < 4294967296"
  using unsigned_less [of x] by simp

lemma unat_add_size_t:
  "unat (x + y :: size_t) =
     (if unat x + unat y < 4294967296 then unat x + unat y else unat x + unat y - 4294967296)"
  using unat_plus_if' [of x y] by simp

lemma align8_bounds: "n \<le> align8 n" "align8 n \<le> n + 7" "8 dvd align8 n"
  unfolding align8_def by presburger+

lemma unat_aligned:
  "unat ((sz + 7) AND NOT 7 :: size_t) =
     (if unat sz + 7 < 4294967296 then align8 (unat sz) else 0)"
proof -
  have a: "unat ((sz + 7) AND NOT 7) = unat (sz + 7) div 8 * 8"
    by (rule unat_and_not_7)
  show ?thesis
  proof (cases "unat sz + 7 < 4294967296")
    case True
    then have "unat (sz + 7) = unat sz + 7"
      by (simp add: unat_add_size_t)
    with True show ?thesis
      unfolding a by (simp add: align8_def)
  next
    case False
    have "unat sz < 4294967296" by (rule unat_size_t_less)
    with False have "unat (sz + 7) < 8"
      by (simp add: unat_add_size_t)
    with False show ?thesis
      unfolding a by simp
  qed
qed

lemma unat_sizeof_heap: "unat sizeof_heap = 65536"
  by (simp add: sizeof_heap_def)

lemma cursor_ok_unat: "cursor_ok s \<longleftrightarrow> unat (heap_ptr s) \<le> 65536 \<and> 8 dvd unat (heap_ptr s)"
  by (simp add: cursor_ok_def word_le_nat_alt unat_sizeof_heap)

lemma check_unat:
  "heap_ptr s + sz > sizeof_heap \<longleftrightarrow> unat (heap_ptr s + sz) > 65536"
  by (simp add: word_less_nat_alt unat_sizeof_heap)

lemma dvd8_le: "8 dvd (a::nat) \<Longrightarrow> a \<le> 65536 + 7 \<Longrightarrow> a \<le> 65536"
  by presburger

section \<open>The cursor invariant\<close>

text \<open>
  \<open>alloc\<close> keeps the cursor at most \<^verbatim>\<open>sizeof(heap)\<close> and a multiple of 8, also when
  one of its additions wraps around.
\<close>

lemma aligned_facts:
  fixes sz :: size_t
  defines "a \<equiv> unat ((sz + 7) AND NOT 7)"
  shows "8 dvd a" and "a = 0 \<or> (unat sz \<le> a \<and> a \<le> unat sz + 7)" and "a < 4294967296"
proof -
  show "8 dvd a"
    unfolding a_def unat_aligned by (simp add: align8_bounds)
  show "a = 0 \<or> (unat sz \<le> a \<and> a \<le> unat sz + 7)"
    unfolding a_def unat_aligned by (simp add: align8_bounds)
  show "a < 4294967296"
    unfolding a_def by (rule unat_size_t_less)
qed

lemma alloc_cursor_ok:
  assumes "cursor_ok s"
  shows "cursor_ok (snd (alloc sz s))"
proof (cases "heap_ptr s + sz > sizeof_heap")
  case True
  with assms show ?thesis by (simp add: alloc_def)
next
  case False
  define h where "h = unat (heap_ptr s)"
  define n where "n = unat sz"
  define w where "w = (sz + 7) AND NOT 7"
  define a where "a = unat w"
  have h: "h \<le> 65536" "8 dvd h"
    using assms by (simp_all add: cursor_ok_unat h_def)
  have a8: "8 dvd a" and a_cases: "a = 0 \<or> (n \<le> a \<and> a \<le> n + 7)" and a_less: "a < 4294967296"
    using aligned_facts [of sz] by (simp_all add: a_def w_def n_def)
  have pass: "unat (heap_ptr s + sz) \<le> 65536"
    using False by (simp add: check_unat)
  have new: "unat (heap_ptr s + w) = (if h + a < 4294967296 then h + a else h + a - 4294967296)"
    by (simp add: unat_add_size_t h_def a_def)
  have sum: "unat (heap_ptr s + sz) = (if h + n < 4294967296 then h + n else h + n - 4294967296)"
    by (simp add: unat_add_size_t h_def n_def)
  have "unat (heap_ptr s + w) \<le> 65536 \<and> 8 dvd unat (heap_ptr s + w)"
  proof (cases "h + a < 4294967296")
    case True
    have "h + a \<le> 65536"
    proof (cases "h + n < 4294967296")
      case True
      with pass sum have "h + n \<le> 65536" by simp
      with a_cases h have "h + a \<le> 65536 + 7" by auto
      moreover have "8 dvd h + a" using h a8 by simp
      ultimately show ?thesis by (rule dvd8_le [rotated])
    next
      case False
      with True a_cases have "a = 0" by auto
      with h show ?thesis by simp
    qed
    moreover have "8 dvd h + a" using h a8 by simp
    ultimately show ?thesis using True new by simp
  next
    case False
    have "8 dvd (4294967296 :: nat)" by simp
    then have "8 dvd h + a - 4294967296"
      using h a8 by (simp add: dvd_diff_nat)
    moreover have "h + a - 4294967296 \<le> 65536"
      using h a_less by simp
    ultimately show ?thesis using False new by simp
  qed
  moreover have "snd (alloc sz s) = s\<lparr>heap_ptr := heap_ptr s + w\<rparr>"
    using False by (simp add: alloc_def w_def)
  ultimately show ?thesis
    by (simp add: cursor_ok_unat)
qed

lemma reset_cursor_ok: "cursor_ok (reset_heap s)"
  by (simp add: reset_heap_def cursor_ok_def)

lemma init_cursor_ok: "cursor_ok init_state"
  by (simp add: init_state_def cursor_ok_def)

lemma step_cursor_ok: "cursor_ok s \<Longrightarrow> cursor_ok (step c s)"
  by (cases c) (simp_all add: alloc_cursor_ok reset_cursor_ok dealloc_def)

lemma run_cursor_ok: "cursor_ok s \<Longrightarrow> cursor_ok (run cs s)"
  by (induction cs arbitrary: s) (simp_all add: step_cursor_ok)

section \<open>Allocation when the sum does not wrap\<close>

text \<open>
  As long as \<open>heap_ptr + size\<close> stays below \<open>2 ^ 32\<close>, the check on the unpadded size
  decides as a check on the padded size would, and a successful call advances the
  cursor by the padded size.
\<close>

lemma nowrap_check:
  assumes "cursor_ok s" and "unat (heap_ptr s) + unat sz < 4294967296"
  shows "heap_ptr s + sz > sizeof_heap \<longleftrightarrow> 65536 < unat (heap_ptr s) + align8 (unat sz)"
proof -
  have h: "unat (heap_ptr s) \<le> 65536" "8 dvd unat (heap_ptr s)"
    using assms(1) by (simp_all add: cursor_ok_unat)
  have sum: "unat (heap_ptr s + sz) = unat (heap_ptr s) + unat sz"
    using assms(2) by (simp add: unat_add_size_t)
  show ?thesis
  proof
    assume "heap_ptr s + sz > sizeof_heap"
    then have "65536 < unat (heap_ptr s) + unat sz"
      by (simp add: check_unat sum)
    with align8_bounds(1) [of "unat sz"] show "65536 < unat (heap_ptr s) + align8 (unat sz)"
      by linarith
  next
    assume big: "65536 < unat (heap_ptr s) + align8 (unat sz)"
    show "heap_ptr s + sz > sizeof_heap"
    proof (rule ccontr)
      assume "\<not> heap_ptr s + sz > sizeof_heap"
      then have "unat (heap_ptr s) + unat sz \<le> 65536"
        by (simp add: check_unat sum)
      with align8_bounds(2) [of "unat sz"]
      have "unat (heap_ptr s) + align8 (unat sz) \<le> 65536 + 7" by linarith
      moreover have "8 dvd unat (heap_ptr s) + align8 (unat sz)"
        using h(2) align8_bounds(3) by simp
      ultimately have "unat (heap_ptr s) + align8 (unat sz) \<le> 65536"
        by (rule dvd8_le [rotated])
      with big show False by simp
    qed
  qed
qed

lemma nowrap_success:
  assumes "cursor_ok s" and "unat (heap_ptr s) + unat sz < 4294967296"
    and "fst (alloc sz s) \<noteq> None"
  shows "fst (alloc sz s) = Some (heap_ptr s)"
    and "unat (heap_ptr (snd (alloc sz s))) = unat (heap_ptr s) + align8 (unat sz)"
    and "unat (heap_ptr s) + align8 (unat sz) \<le> 65536"
proof -
  have pass: "\<not> heap_ptr s + sz > sizeof_heap"
    using assms(3) by (simp add: alloc_None_iff)
  then show "fst (alloc sz s) = Some (heap_ptr s)"
    by (simp add: alloc_def)
  from pass show le: "unat (heap_ptr s) + align8 (unat sz) \<le> 65536"
    using nowrap_check [OF assms(1,2)] by simp
  with align8_bounds(1) [of "unat sz"] have "unat sz + 7 < 4294967296"
    by linarith
  then have "unat ((sz + 7) AND NOT 7) = align8 (unat sz)"
    by (simp only: unat_aligned if_True)
  with le have "unat (heap_ptr s + ((sz + 7) AND NOT 7)) = unat (heap_ptr s) + align8 (unat sz)"
    by (simp only: unat_add_size_t) simp
  with pass show "unat (heap_ptr (snd (alloc sz s))) = unat (heap_ptr s) + align8 (unat sz)"
    by (simp add: alloc_def)
qed

lemma nowrap_region:
  assumes "cursor_ok s" and "unat (heap_ptr s) + unat sz < 4294967296"
    and "fst (alloc sz s) = Some p"
  shows "region p sz \<subseteq> {0 ..< unat sizeof_heap}"
    and "region p sz \<subseteq> {unat (heap_ptr s) ..< unat (heap_ptr (snd (alloc sz s)))}"
proof -
  have ok: "fst (alloc sz s) \<noteq> None" using assms(3) by simp
  have p: "p = heap_ptr s"
    using nowrap_success(1) [OF assms(1,2) ok] assms(3) by simp
  have "unat (heap_ptr s) + unat sz \<le> unat (heap_ptr s) + align8 (unat sz)"
    using align8_bounds(1) [of "unat sz"] by simp
  moreover note nowrap_success(2,3) [OF assms(1,2) ok]
  ultimately show "region p sz \<subseteq> {0 ..< unat sizeof_heap}"
    and "region p sz \<subseteq> {unat (heap_ptr s) ..< unat (heap_ptr (snd (alloc sz s)))}"
    by (auto simp: region_def p unat_sizeof_heap)
qed

lemma nowrap_monotone:
  assumes "cursor_ok s" and "unat (heap_ptr s) + unat sz < 4294967296"
  shows "heap_ptr s \<le> heap_ptr (snd (alloc sz s))"
proof (cases "fst (alloc sz s) = None")
  case True
  then show ?thesis by (simp add: alloc_def split: if_splits)
next
  case False
  from nowrap_success(2) [OF assms False] show ?thesis
    by (simp add: word_le_nat_alt)
qed

text \<open>A size below \<open>2 ^ 32 - 65536\<close> cannot wrap the sum in any state satisfying the invariant.\<close>

lemma small_nowrap:
  assumes "cursor_ok s" and "unat sz < 4294901760"
  shows "unat (heap_ptr s) + unat sz < 4294967296"
  using assms by (simp add: cursor_ok_unat)

section \<open>Sequences of allocations without wrap-around\<close>

text \<open>
  A size below \<open>2 ^ 32 - 65536\<close> cannot wrap the sum in the bounds check. For sequences
  of such sizes the cursor only grows, every region lies between the cursor before and
  after its call, and so the regions are pairwise disjoint. The offsets returned are
  multiples of 8 for all sizes.
\<close>

lemma alloc_region_between:
  assumes "cursor_ok s" and "unat sz < 4294901760"
  shows "(case fst (alloc sz s) of None \<Rightarrow> {} | Some q \<Rightarrow> region q sz)
           \<subseteq> {unat (heap_ptr s) ..< unat (heap_ptr (snd (alloc sz s)))}"
proof (cases "fst (alloc sz s)")
  case None
  then show ?thesis by simp
next
  case (Some p)
  from nowrap_region(2) [OF assms(1) small_nowrap [OF assms] Some] Some
  show ?thesis by simp
qed

lemma allocs_regions:
  assumes "cursor_ok s" and "\<forall>sz\<in>set szs. unat sz < 4294901760"
  shows "cursor_ok (snd (allocs szs s)) \<and>
         heap_ptr s \<le> heap_ptr (snd (allocs szs s)) \<and>
         (\<forall>r\<in>set (regions (fst (allocs szs s)) szs).
            r \<subseteq> {unat (heap_ptr s) ..< unat (heap_ptr (snd (allocs szs s)))}) \<and>
         pairwise_disjoint (regions (fst (allocs szs s)) szs)"
  using assms
proof (induction szs arbitrary: s)
  case Nil
  then show ?case by (simp add: regions_def pairwise_disjoint_def)
next
  case (Cons sz szs)
  define s1 where "s1 = snd (alloc sz s)"
  define s2 where "s2 = snd (allocs szs s1)"
  define r where "r = (case fst (alloc sz s) of None \<Rightarrow> {} | Some q \<Rightarrow> region q sz)"
  define rs where "rs = regions (fst (allocs szs s1)) szs"
  have sz: "unat sz < 4294901760" and rest: "\<forall>sz\<in>set szs. unat sz < 4294901760"
    using Cons.prems(2) by simp_all
  have ok1: "cursor_ok s1"
    unfolding s1_def by (rule alloc_cursor_ok [OF Cons.prems(1)])
  have "heap_ptr s \<le> heap_ptr s1"
    unfolding s1_def by (rule nowrap_monotone [OF Cons.prems(1) small_nowrap [OF Cons.prems(1) sz]])
  then have a: "unat (heap_ptr s) \<le> unat (heap_ptr s1)"
    by (simp add: word_le_nat_alt)
  have r: "r \<subseteq> {unat (heap_ptr s) ..< unat (heap_ptr s1)}"
    unfolding r_def s1_def by (rule alloc_region_between [OF Cons.prems(1) sz])
  from Cons.IH [OF ok1 rest]
  have ok2: "cursor_ok s2"
    and "heap_ptr s1 \<le> heap_ptr s2"
    and rs: "\<forall>r'\<in>set rs. r' \<subseteq> {unat (heap_ptr s1) ..< unat (heap_ptr s2)}"
    and disj: "pairwise_disjoint rs"
    by (simp_all add: s2_def rs_def)
  then have b: "unat (heap_ptr s1) \<le> unat (heap_ptr s2)"
    by (simp add: word_le_nat_alt)
  have eq: "snd (allocs (sz # szs) s) = s2"
    "regions (fst (allocs (sz # szs) s)) (sz # szs) = r # rs"
    unfolding allocs_Cons by (simp_all add: regions_Cons s1_def s2_def r_def rs_def)
  have "r \<subseteq> {unat (heap_ptr s) ..< unat (heap_ptr s2)}"
    using r b by auto
  moreover have "\<forall>r'\<in>set rs. r' \<subseteq> {unat (heap_ptr s) ..< unat (heap_ptr s2)}"
    using rs a by fastforce
  moreover have "\<forall>r'\<in>set rs. r \<inter> r' = {}"
    using r rs by fastforce
  moreover have "unat (heap_ptr s) \<le> unat (heap_ptr s2)"
    using a b by simp
  ultimately show ?case
    unfolding eq using ok2 disj
    by (simp add: pairwise_disjoint_Cons word_le_nat_alt)
qed

lemma allocs_aligned:
  assumes "cursor_ok s" and "Some p \<in> set (fst (allocs szs s))"
  shows "8 dvd unat p"
  using assms
proof (induction szs arbitrary: s)
  case Nil
  then show ?case by simp
next
  case (Cons sz szs)
  from Cons.prems(2) consider "fst (alloc sz s) = Some p"
    | "Some p \<in> set (fst (allocs szs (snd (alloc sz s))))"
    unfolding allocs_Cons by auto
  then show ?case
  proof cases
    case 1
    then have "p = heap_ptr s" by (rule alloc_Some)
    with Cons.prems(1) show ?thesis by (simp add: cursor_ok_def)
  next
    case 2
    with Cons.IH [OF alloc_cursor_ok [OF Cons.prems(1)]] show ?thesis .
  qed
qed

lemma after8: "run [Alloc 8] init_state = init_state\<lparr>heap_ptr := 8\<rparr>"
  by (simp add: alloc_def heap_ptr_init sizeof_heap_def)

section \<open>Disjointness and alignment of the returned regions\<close>

text \<open>
  C1: the regions returned by a sequence of successful \<open>alloc\<close> calls, each of its
  requested length, are pairwise disjoint, and each starts at a multiple of 8 from the
  arena base. The code breaks the first half when the bounds check wraps: from the initial
  state the calls \<open>alloc(8)\<close>, \<open>alloc(2 ^ 32 - 8)\<close>, \<open>alloc(8)\<close> all return a non-null
  pointer, the second call wraps the cursor from 8 back to 0, and the third call returns
  the bytes \<open>[0, 8)\<close> that the first call returned.
\<close>

theorem allocs_overlap:
  "fst (allocs [8, 0xFFFFFFF8, 8] init_state) = [Some 0, Some 8, Some 0] \<and>
   regions (fst (allocs [8, 0xFFFFFFF8, 8] init_state)) [8, 0xFFFFFFF8, 8]
     = [{0 ..< 8}, {8 ..< 4294967296}, {0 ..< 8}] \<and>
   \<not> pairwise_disjoint (regions (fst (allocs [8, 0xFFFFFFF8, 8] init_state)) [8, 0xFFFFFFF8, 8])"
  by (simp add: alloc_def heap_ptr_init sizeof_heap_def regions_def region_def pairwise_disjoint_def)

section \<open>When allocation fails\<close>

text \<open>
  C2: \<open>alloc(size)\<close> returns \<^verbatim>\<open>NULL\<close> if and only if the cursor plus the size rounded up
  to the next multiple of 8 exceeds \<^verbatim>\<open>sizeof(heap)\<close>. The code breaks this when the sum
  wraps: in the state reached by \<open>alloc(8)\<close>, the cursor plus the rounded size
  \<open>2 ^ 32 - 4\<close> exceeds \<^verbatim>\<open>sizeof(heap)\<close>, yet \<open>alloc(2 ^ 32 - 4)\<close> returns the non-null
  pointer at offset 8.
\<close>

theorem alloc_succeeds_beyond_capacity:
  "unat (heap_ptr (run [Alloc 8] init_state)) + align8 (unat (0xFFFFFFFC :: size_t))
     > unat sizeof_heap \<and>
   fst (alloc 0xFFFFFFFC (run [Alloc 8] init_state)) = Some 8"
  unfolding after8 by (simp add: alloc_def sizeof_heap_def align8_def)

section \<open>The cursor advance of a successful allocation\<close>

text \<open>
  C3: a successful \<open>alloc(size)\<close> returns the region starting at the cursor and advances
  the cursor by exactly the size rounded up to the next multiple of 8. The returned
  offset is the cursor, but the code breaks the advance when the arithmetic wraps: in the
  state reached by \<open>alloc(8)\<close>, \<open>alloc(2 ^ 32 - 4)\<close> succeeds, the rounded size is
  \<open>2 ^ 32\<close>, and the cursor is 8 after the call as before it.
\<close>

theorem alloc_cursor_not_advanced:
  "fst (alloc 0xFFFFFFFC (run [Alloc 8] init_state)) = Some 8 \<and>
   align8 (unat (0xFFFFFFFC :: size_t)) = 4294967296 \<and>
   unat (heap_ptr (snd (alloc 0xFFFFFFFC (run [Alloc 8] init_state)))) = 8 \<and>
   unat (heap_ptr (snd (alloc 0xFFFFFFFC (run [Alloc 8] init_state)))) \<noteq>
     unat (heap_ptr (run [Alloc 8] init_state)) + align8 (unat (0xFFFFFFFC :: size_t))"
  unfolding after8 by (simp add: alloc_def sizeof_heap_def align8_def)

section \<open>Failed allocations\<close>

text \<open>
  C4: for every state and every size, if \<open>alloc\<close> fails (returns \<^verbatim>\<open>NULL\<close>), the whole
  allocator state, the cursor \<open>heap_ptr\<close> included, is the same after the call as before.
\<close>

theorem alloc_fail_unchanged:
  "fst (alloc sz s) = None \<Longrightarrow> snd (alloc sz s) = s"
  by (simp add: alloc_def split: if_splits)

theorem alloc_fail_unchanged_witness:
  "fst (alloc 65537 init_state) = None \<and> snd (alloc 65537 init_state) = init_state"
proof -
  have h: "fst (alloc 65537 init_state) = None"
    by (simp add: alloc_def heap_ptr_init sizeof_heap_def)
  from h alloc_fail_unchanged [OF h] show ?thesis by simp
qed

section \<open>Returned regions and the arena bounds\<close>

text \<open>
  C5: the region returned by a successful \<open>alloc(size)\<close> has at least \<open>size\<close> accessible
  bytes and lies within the arena, \<open>[0, sizeof(heap))\<close>. The code breaks this when the
  bounds check wraps: in the state reached by \<open>alloc(8)\<close>, \<open>alloc(2 ^ 32 - 4)\<close> returns
  the non-null pointer at offset 8, and the \<open>2 ^ 32 - 4\<close> bytes from there end far
  beyond the 65536 bytes of the arena.
\<close>

theorem alloc_region_out_of_bounds:
  "fst (alloc 0xFFFFFFFC (run [Alloc 8] init_state)) = Some 8 \<and>
   region 8 0xFFFFFFFC = {8 ..< 4294967300} \<and>
   \<not> region 8 0xFFFFFFFC \<subseteq> {0 ..< unat sizeof_heap}"
  unfolding after8 by (simp add: alloc_def sizeof_heap_def region_def)

section \<open>The cursor stays within the arena\<close>

text \<open>
  C6: in every state reached from the initial state by any sequence of \<open>alloc\<close>,
  \<open>dealloc\<close> and \<open>reset_heap\<close> calls the cursor satisfies
  \<open>0 \<le> heap_ptr \<le> sizeof(heap)\<close>; and a call that changes the cursor is a call of
  \<open>reset_heap\<close> or of \<open>alloc\<close>, never of \<open>dealloc\<close>.
\<close>

theorem cursor_in_bounds:
  "0 \<le> heap_ptr (run cs init_state) \<and> heap_ptr (run cs init_state) \<le> sizeof_heap \<and>
   (heap_ptr (step c s) \<noteq> heap_ptr s \<longrightarrow> c = Reset \<or> (\<exists>sz. c = Alloc sz))"
proof -
  have "cursor_ok (run cs init_state)"
    by (rule run_cursor_ok [OF init_cursor_ok])
  then have "heap_ptr (run cs init_state) \<le> sizeof_heap"
    by (simp add: cursor_ok_def)
  moreover have "heap_ptr (step c s) \<noteq> heap_ptr s \<longrightarrow> c = Reset \<or> (\<exists>sz. c = Alloc sz)"
    by (cases c) (simp_all add: dealloc_def)
  ultimately show ?thesis by simp
qed

theorem cursor_in_bounds_witness:
  "heap_ptr (step (Alloc 8) init_state) \<noteq> heap_ptr init_state \<and>
   heap_ptr (run [Alloc 65536, Dealloc (Some 0) 65536, Alloc 1] init_state) \<le> sizeof_heap \<and>
   (Alloc 8 = Reset \<or> (\<exists>sz. Alloc 8 = Alloc sz))"
proof -
  have h: "heap_ptr (step (Alloc 8) init_state) \<noteq> heap_ptr init_state"
    by (simp add: alloc_def heap_ptr_init sizeof_heap_def)
  from h cursor_in_bounds [of "[Alloc 65536, Dealloc (Some 0) 65536, Alloc 1]" "Alloc 8" init_state]
  show ?thesis by blast
qed

section \<open>Monotonicity of the cursor\<close>

text \<open>
  C7: the cursor never decreases except when \<open>reset_heap\<close> sets it to 0; every \<open>alloc\<close>
  or \<open>dealloc\<close> call leaves it at least as large as before. The code breaks this for
  \<open>alloc\<close> when the bounds check wraps: in the state reached by \<open>alloc(8)\<close> the call
  \<open>alloc(2 ^ 32 - 8)\<close> succeeds and moves the cursor from 8 down to 0.
\<close>

theorem alloc_decreases_cursor:
  "heap_ptr (run [Alloc 8] init_state) = 8 \<and>
   fst (alloc 0xFFFFFFF8 (run [Alloc 8] init_state)) = Some 8 \<and>
   heap_ptr (step (Alloc 0xFFFFFFF8) (run [Alloc 8] init_state)) = 0 \<and>
   heap_ptr (step (Alloc 0xFFFFFFF8) (run [Alloc 8] init_state))
     < heap_ptr (run [Alloc 8] init_state)"
  unfolding after8 by (simp add: alloc_def sizeof_heap_def)

section \<open>Reset\<close>

text \<open>
  C8: \<open>reset_heap\<close> sets the cursor to 0; and for every \<open>k \<le> sizeof(heap)\<close> for which
  \<open>alloc k\<close> succeeds in the initial state, \<open>alloc k\<close> called right after \<open>reset_heap\<close>,
  whatever the state before the reset, succeeds and returns the region at offset 0.
\<close>

theorem reset_then_alloc:
  "heap_ptr (reset_heap s) = 0 \<and>
   (k \<le> sizeof_heap \<and> fst (alloc k init_state) \<noteq> None \<longrightarrow>
      fst (alloc k (reset_heap s)) = Some 0)"
  by (simp add: reset_heap_def alloc_def heap_ptr_init)

theorem reset_then_alloc_witness:
  "50 \<le> sizeof_heap \<and> fst (alloc 50 init_state) \<noteq> None \<and>
   fst (alloc 50 (reset_heap (run [Alloc 10, Alloc 3] init_state))) = Some 0"
proof -
  have h: "50 \<le> sizeof_heap \<and> fst (alloc 50 init_state) \<noteq> None"
    by (simp add: alloc_def heap_ptr_init sizeof_heap_def)
  from h reset_then_alloc [of "run [Alloc 10, Alloc 3] init_state" 50]
  show ?thesis by blast
qed

section \<open>Deallocation\<close>

text \<open>
  C9: \<open>dealloc\<close> is a no-op. Any number of \<open>dealloc\<close> calls, with any pointer and size
  arguments, leaves the allocator state unchanged, and so the result (returned pointer
  and new state) of any later \<open>alloc\<close> call is what it would have been without them.
\<close>

theorem dealloc_noop:
  "dealloc ptr sz s = s \<and>
   fold (\<lambda>(p, n). dealloc p n) ds s = s \<and>
   alloc m (fold (\<lambda>(p, n). dealloc p n) ds s) = alloc m s"
proof -
  have "fold (\<lambda>(p, n). dealloc p n) ds s = s"
    by (induction ds) (simp_all add: dealloc_def split_def)
  then show ?thesis by (simp add: dealloc_def)
qed

section \<open>Wrap-around in the bounds check\<close>

text \<open>
  C10: with \<open>size_t\<close> arithmetic modulo \<open>2 ^ 32\<close>, in the state reached by \<open>alloc(8)\<close>
  (cursor 8) the size \<open>2 ^ 32 - 4\<close> exceeds the remaining capacity, yet the sum
  \<open>heap_ptr + size\<close> wraps to 4, so the bounds check passes and \<open>alloc\<close> returns the
  non-null pointer at offset 8; the advance \<open>(size + 7) & ~7\<close> wraps to 0, so the
  cursor stays at 8.
\<close>

theorem alloc_wraps:
  "heap_ptr (run [Alloc 8] init_state) = 8 \<and>
   unat (0xFFFFFFFC :: size_t) > unat sizeof_heap - unat (heap_ptr (run [Alloc 8] init_state)) \<and>
   heap_ptr (run [Alloc 8] init_state) + 0xFFFFFFFC = 4 \<and>
   ((0xFFFFFFFC :: size_t) + 7) AND NOT 7 = 0 \<and>
   alloc 0xFFFFFFFC (run [Alloc 8] init_state) = (Some 8, run [Alloc 8] init_state)"
  unfolding after8 by (simp add: alloc_def sizeof_heap_def)

end
